theory Spec2Isabelle
  imports Main "HOL-Library.Char_ord" "HOL-Library.List_Lexorder" "HOL-Library.Multiset"
begin

section \<open>The statechart model consumed by the interpreter\<close>

text \<open>
  The interpreter of \<^verbatim>\<open>sismic/interpreter.py\<close> reads a statechart through the
  module \<^verbatim>\<open>model\<close> and runs guards and actions through an evaluator. Neither module
  is part of the sources at hand, so their data is declared here and their operations are
  fields of records: every theorem below holds for whatever functions fill those fields.
\<close>

type_synonym name = string
type_synonym code = string

text \<open>
  Modelled from the spec: the class \<^verbatim>\<open>model.Event\<close> is missing. An event is
  "a name plus optional associated data, opaque to the core beyond equality".
\<close>

datatype event = Event (event_name: string)

text \<open>
  Modelled from the spec: the class \<^verbatim>\<open>model.Transition\<close> is missing. It has a
  source state name, an optional target, an optional event, an optional guard and an
  optional action; the interpreter reads them as \<^verbatim>\<open>from_state\<close>,
  \<^verbatim>\<open>to_state\<close>, \<^verbatim>\<open>event\<close>, \<^verbatim>\<open>guard\<close> and \<^verbatim>\<open>action\<close>.
\<close>

record transition =
  from_state :: name
  to_state :: "name option"
  event :: "event option"
  guard :: "code option"
  action :: "code option"

text \<open>
  Modelled from the spec: the state classes of \<^verbatim>\<open>model\<close> are missing. The five
  variants are those of the spec's data model. A final state is given optional entry and
  exit code as well; with both absent it is the bare leaf of the spec. The fallback
  \<^verbatim>\<open>initial\<close> of a history state is a name, the one of a compound state is optional.
\<close>

datatype state =
    BasicState name "code option" "code option" "transition list"
  | CompoundState name "code option" "code option" "transition list" "name list" "name option"
  | OrthogonalState name "code option" "code option" "transition list" "name list"
  | HistoryState name name bool
  | FinalState name "code option" "code option"

fun state_name :: "state \<Rightarrow> name" where
  "state_name (BasicState n _ _ _) = n"
| "state_name (CompoundState n _ _ _ _ _) = n"
| "state_name (OrthogonalState n _ _ _ _) = n"
| "state_name (HistoryState n _ _) = n"
| "state_name (FinalState n _ _) = n"

text \<open>\<^verbatim>\<open>isinstance(state, model.ActionStateMixin)\<close>: every variant but the history state.\<close>

fun is_ActionStateMixin :: "state \<Rightarrow> bool" where
  "is_ActionStateMixin (HistoryState _ _ _) = False"
| "is_ActionStateMixin _ = True"

fun on_entry :: "state \<Rightarrow> code option" where
  "on_entry (BasicState _ en _ _) = en"
| "on_entry (CompoundState _ en _ _ _ _) = en"
| "on_entry (OrthogonalState _ en _ _ _) = en"
| "on_entry (HistoryState _ _ _) = None"
| "on_entry (FinalState _ en _) = en"

fun on_exit :: "state \<Rightarrow> code option" where
  "on_exit (BasicState _ _ ex _) = ex"
| "on_exit (CompoundState _ _ ex _ _ _) = ex"
| "on_exit (OrthogonalState _ _ ex _ _) = ex"
| "on_exit (HistoryState _ _ _) = None"
| "on_exit (FinalState _ _ ex) = ex"

text \<open>\<^verbatim>\<open>getattr(state, 'transitions', [])\<close>\<close>

fun transitions :: "state \<Rightarrow> transition list" where
  "transitions (BasicState _ _ _ ts) = ts"
| "transitions (CompoundState _ _ _ ts _ _) = ts"
| "transitions (OrthogonalState _ _ _ ts _) = ts"
| "transitions _ = []"

fun children :: "state \<Rightarrow> name list" where
  "children (CompoundState _ _ _ _ cs _) = cs"
| "children (OrthogonalState _ _ _ _ cs) = cs"
| "children _ = []"

fun is_CompoundState :: "state \<Rightarrow> bool" where
  "is_CompoundState (CompoundState _ _ _ _ _ _) = True"
| "is_CompoundState _ = False"

fun is_OrthogonalState :: "state \<Rightarrow> bool" where
  "is_OrthogonalState (OrthogonalState _ _ _ _ _) = True"
| "is_OrthogonalState _ = False"

text \<open>
  Python's truth value of an optional string (\<^verbatim>\<open>if state.on_exit\<close>,
  \<^verbatim>\<open>leaf.initial\<close>, \<^verbatim>\<open>transition.action\<close>): \<^verbatim>\<open>None\<close> and the empty
  string are false.
\<close>

fun truthy :: "string option \<Rightarrow> string option" where
  "truthy None = None"
| "truthy (Some s) = (if s = [] then None else Some s)"

text \<open>
  The statechart with its hierarchy queries (\<^verbatim>\<open>model.StateChart\<close>, missing): the
  table of states, the initial state, the chart's entry code, and the five queries the
  interpreter calls. \<^verbatim>\<open>least_common_ancestor\<close> may answer \<^verbatim>\<open>None\<close>
  (the interpreter looks its answer up with \<^verbatim>\<open>states.get(lca, None)\<close>).
\<close>

record statechart =
  states :: "name \<rightharpoonup> state"
  chart_initial :: name
  chart_on_entry :: "code option"
  ancestors_for :: "name \<Rightarrow> name list"
  descendants_for :: "name \<Rightarrow> name list"
  least_common_ancestor :: "name \<Rightarrow> name \<Rightarrow> name option"
  depth_of :: "name \<Rightarrow> int"
  leaf_for :: "name list \<Rightarrow> name list"

text \<open>
  The errors the interpreter can raise. Both checks of \<^verbatim>\<open>_sort_transitions\<close> raise
  Python's \<^verbatim>\<open>Warning\<close>, with the messages "Non-determinist transitions" and
  "Conflicting transitions"; they are the spec's NonDeterminismError and ConflictError.
  \<^verbatim>\<open>KeyError\<close> is a failed lookup in \<^verbatim>\<open>states\<close>, \<^verbatim>\<open>AssertionError\<close>
  a failed \<^verbatim>\<open>assert\<close>, and \<^verbatim>\<open>EvaluatorError\<close> whatever the evaluator raises.
\<close>

datatype error =
    NonDeterminismError
  | ConflictError
  | KeyError name
  | AssertionError
  | EvaluatorError string

text \<open>
  The evaluator (\<^verbatim>\<open>evaluator.Evaluator\<close>, missing) keeps a context of its own, of
  type \<^typ>\<open>'x\<close>: a guard reads it, an action may change it and returns the events it
  raised.
\<close>

record 'x evaluator =
  evaluate_condition :: "'x \<Rightarrow> code \<Rightarrow> event option \<Rightarrow> error + bool"
  execute_action :: "'x \<Rightarrow> code \<Rightarrow> event option \<Rightarrow> (error + event list) \<times> 'x"

section \<open>Micro steps and macro steps\<close>

record microstep =
  step_event :: "event option"
  step_transition :: "transition option"
  entered_states :: "name list"
  exited_states :: "name list"

text \<open>
  \<^verbatim>\<open>MicroStep.__init__\<close>: every argument defaults to \<^verbatim>\<open>None\<close>, and an absent
  (or empty) list becomes \<^verbatim>\<open>[]\<close>. An absent transition is stored as \<^verbatim>\<open>[]\<close>,
  which is \<^term>\<open>None\<close> here: both are Python's "no transition", false in
  \<^verbatim>\<open>if step.transition\<close>.
\<close>

definition MicroStep ::
  "event option \<Rightarrow> transition option \<Rightarrow> name list option \<Rightarrow> name list option \<Rightarrow> microstep" where
  "MicroStep e t entered exited =
     \<lparr>step_event = e, step_transition = t,
      entered_states = (case entered of None \<Rightarrow> [] | Some xs \<Rightarrow> xs),
      exited_states = (case exited of None \<Rightarrow> [] | Some xs \<Rightarrow> xs)\<rparr>"

record macrostep =
  steps :: "microstep list"

definition MacroStep :: "microstep list \<Rightarrow> macrostep" where
  "MacroStep xs = \<lparr>steps = xs\<rparr>"

text \<open>
  The property \<^verbatim>\<open>MacroStep.event\<close>: the body reads \<^verbatim>\<open>self.steps[0].event\<close>
  inside \<^verbatim>\<open>try\<close> without returning it, and returns \<^verbatim>\<open>None\<close> in the handler
  of \<^verbatim>\<open>IndexError\<close>; a Python function that falls off its end returns
  \<^verbatim>\<open>None\<close> too.
\<close>

definition MacroStep_event :: "macrostep \<Rightarrow> event option" where
  "MacroStep_event m =
     (case steps m of
        [] \<Rightarrow> None
      | s # _ \<Rightarrow> (let read = step_event s in None))"

definition MacroStep_transitions :: "macrostep \<Rightarrow> transition list" where
  "MacroStep_transitions m = List.map_filter step_transition (steps m)"

definition MacroStep_entered_states :: "macrostep \<Rightarrow> name list" where
  "MacroStep_entered_states m = concat (map entered_states (steps m))"

definition MacroStep_exited_states :: "macrostep \<Rightarrow> name list" where
  "MacroStep_exited_states m = concat (map exited_states (steps m))"

section \<open>The interpreter\<close>

text \<open>
  The fields of \<^verbatim>\<open>Interpreter\<close>. The configuration is a Python \<^verbatim>\<open>set\<close>;
  \<^verbatim>\<open>set_order\<close> is the order in which the runtime iterates over a set of names
  (\<^verbatim>\<open>list(s)\<close>, \<^verbatim>\<open>for x in s\<close>), about which nothing is assumed.
\<close>

record 'x interpreter =
  statechart :: statechart
  evaluator :: "'x evaluator"
  evaluator_state :: 'x
  memory :: "name \<rightharpoonup> name list"
  configuration :: "name set"
  events :: "event list"
  set_order :: "name set \<Rightarrow> name list"

type_synonym ('a, 'x) result = "(error + 'a) \<times> 'x interpreter"

text \<open>\<^verbatim>\<open>send\<close>: an internal event goes to the front of the queue, an external one to its back.\<close>

definition send :: "event \<Rightarrow> bool \<Rightarrow> 'x interpreter \<Rightarrow> 'x interpreter" where
  "send e internal st =
     (if internal then st\<lparr>events := e # events st\<rparr>
      else st\<lparr>events := events st @ [e]\<rparr>)"

subsection \<open>Selecting transitions\<close>

text \<open>
  \<^verbatim>\<open>_select_transitions\<close>, innermost loop: the transitions of one state. A
  transition is kept when its event is the requested one, its source is active and its
  guard is absent or holds; a kept transition is appended unless it is in the list already.
\<close>

fun select_in_state ::
  "'x interpreter \<Rightarrow> event option \<Rightarrow> transition list \<Rightarrow> bool \<Rightarrow> transition list
     \<Rightarrow> error + (bool \<times> transition list)" where
  "select_in_state st e [] found acc = Inr (found, acc)"
| "select_in_state st e (t # ts) found acc =
     (if event t \<noteq> e \<or> from_state t \<notin> configuration st then select_in_state st e ts found acc
      else
        (case (case guard t of
                 None \<Rightarrow> Inr True
               | Some g \<Rightarrow> evaluate_condition (evaluator st) (evaluator_state st) g e) of
           Inl err \<Rightarrow> Inl err
         | Inr b \<Rightarrow>
             if b then select_in_state st e ts True (if t \<in> set acc then acc else acc @ [t])
             else select_in_state st e ts found acc))"

text \<open>Middle loop: a leaf and its ancestors, left as soon as one of them had a transition.\<close>

fun select_from_leaf ::
  "'x interpreter \<Rightarrow> event option \<Rightarrow> name list \<Rightarrow> transition list \<Rightarrow> error + transition list" where
  "select_from_leaf st e [] acc = Inr acc"
| "select_from_leaf st e (a # as) acc =
     (case states (statechart st) a of
        None \<Rightarrow> Inl (KeyError a)
      | Some s \<Rightarrow>
          (case select_in_state st e (transitions s) False acc of
             Inl err \<Rightarrow> Inl err
           | Inr (found, acc') \<Rightarrow> if found then Inr acc' else select_from_leaf st e as acc'))"

text \<open>Outer loop: the leaves of the configuration.\<close>

fun select_leaves ::
  "'x interpreter \<Rightarrow> event option \<Rightarrow> name list \<Rightarrow> transition list \<Rightarrow> error + transition list" where
  "select_leaves st e [] acc = Inr acc"
| "select_leaves st e (leaf # leaves) acc =
     (case select_from_leaf st e (leaf # ancestors_for (statechart st) leaf) acc of
        Inl err \<Rightarrow> Inl err
      | Inr acc' \<Rightarrow> select_leaves st e leaves acc')"

definition select_transitions :: "'x interpreter \<Rightarrow> event option \<Rightarrow> error + transition list" where
  "select_transitions st e =
     select_leaves st e (leaf_for (statechart st) (set_order st (configuration st))) []"

definition select_eventless_transitions :: "'x interpreter \<Rightarrow> error + transition list" where
  "select_eventless_transitions st = select_transitions st None"

subsection \<open>Ordering transitions\<close>

text \<open>\<^verbatim>\<open>itertools.combinations(transitions, 2)\<close>\<close>

fun combinations2 :: "'a list \<Rightarrow> ('a \<times> 'a) list" where
  "combinations2 [] = []"
| "combinations2 (x # xs) = map (Pair x) xs @ combinations2 xs"

text \<open>
  The loop \<^verbatim>\<open>for state in ancestors_for(from_state): if state == lca: break;
  last_before_lca = state\<close>, which \<^verbatim>\<open>_sort_transitions\<close> and
  \<^verbatim>\<open>_compute_transitions_steps\<close> both run.
\<close>

fun last_before_lca :: "name option \<Rightarrow> name list \<Rightarrow> name \<Rightarrow> name" where
  "last_before_lca lca [] cur = cur"
| "last_before_lca lca (s # ss) cur = (if Some s = lca then cur else last_before_lca lca ss s)"

text \<open>Check (2) for one transition: its target is its branch below the LCA or a descendant of it.\<close>

definition target_in_branch :: "statechart \<Rightarrow> name option \<Rightarrow> transition \<Rightarrow> bool" where
  "target_in_branch sc lca t =
     (let branch = last_before_lca lca (ancestors_for sc (from_state t)) (from_state t)
      in case to_state t of
           None \<Rightarrow> False
         | Some target \<Rightarrow> target \<in> set (branch # descendants_for sc branch))"

text \<open>The body of the loop over the pairs: the error it raises, if any.\<close>

definition check_pair :: "statechart \<Rightarrow> transition \<Rightarrow> transition \<Rightarrow> error option" where
  "check_pair sc t1 t2 =
     (let lca = least_common_ancestor sc (from_state t1) (from_state t2);
          lca_state = (case lca of None \<Rightarrow> None | Some l \<Rightarrow> states sc l)
      in if \<not> (case lca_state of None \<Rightarrow> False | Some s \<Rightarrow> is_OrthogonalState s)
         then Some NonDeterminismError
         else if \<not> target_in_branch sc lca t1 then Some ConflictError
         else if \<not> target_in_branch sc lca t2 then Some ConflictError
         else None)"

fun check_pairs :: "statechart \<Rightarrow> (transition \<times> transition) list \<Rightarrow> error option" where
  "check_pairs sc [] = None"
| "check_pairs sc ((t1, t2) # ps) =
     (case check_pair sc t1 t2 of
        Some err \<Rightarrow> Some err
      | None \<Rightarrow> check_pairs sc ps)"

text \<open>
  Python's \<^verbatim>\<open>sorted(xs, key=..., reverse=...)\<close>: a stable sort; with
  \<^verbatim>\<open>reverse=True\<close> the list is reversed, sorted and reversed again, so that elements
  with equal keys keep their order.
\<close>

definition sorted_py :: "('a \<Rightarrow> 'k::linorder) \<Rightarrow> bool \<Rightarrow> 'a list \<Rightarrow> 'a list" where
  "sorted_py key reverse xs =
     (if reverse then rev (sort_key key (rev xs)) else sort_key key xs)"

definition sort_transitions :: "statechart \<Rightarrow> transition list \<Rightarrow> error + transition list" where
  "sort_transitions sc ts =
     (if length ts > 1 then
        (case check_pairs sc (combinations2 ts) of
           Some err \<Rightarrow> Inl err
         | None \<Rightarrow>
             Inr (rev (sorted_py (\<lambda>t. depth_of sc (from_state t)) False
                        (sorted_py from_state True ts))))
      else Inr ts)"

subsection \<open>Computing the steps of transitions\<close>

text \<open>The loop that builds \<^verbatim>\<open>entered_states\<close> with \<^verbatim>\<open>insert(0, state)\<close>.\<close>

fun entered_loop :: "name option \<Rightarrow> name list \<Rightarrow> name list \<Rightarrow> name list" where
  "entered_loop lca [] acc = acc"
| "entered_loop lca (s # ss) acc = (if Some s = lca then acc else entered_loop lca ss (s # acc))"

definition compute_transition_step ::
  "'x interpreter \<Rightarrow> event option \<Rightarrow> transition \<Rightarrow> microstep" where
  "compute_transition_step st e t =
     (case to_state t of
        None \<Rightarrow> MicroStep e (Some t) (Some []) (Some [])
      | Some target \<Rightarrow>
          (let sc = statechart st;
               lca = least_common_ancestor sc (from_state t) target;
               from_ancestors = ancestors_for sc (from_state t);
               to_ancestors = ancestors_for sc target;
               branch = last_before_lca lca from_ancestors (from_state t);
               exited = filter (\<lambda>d. d \<in> configuration st) (rev (descendants_for sc branch));
               exited' = (if branch \<in> configuration st then exited @ [branch] else exited);
               entered = entered_loop lca to_ancestors [target]
           in MicroStep e (Some t) (Some entered) (Some exited')))"

definition compute_transitions_steps ::
  "'x interpreter \<Rightarrow> event option \<Rightarrow> transition list \<Rightarrow> microstep list" where
  "compute_transitions_steps st e ts = map (compute_transition_step st e) ts"

subsection \<open>Applying a step\<close>

text \<open>\<^verbatim>\<open>list(map(lambda s: self._statechart.states[s], names))\<close>\<close>

fun lookup_states :: "statechart \<Rightarrow> name list \<Rightarrow> error + state list" where
  "lookup_states sc [] = Inr []"
| "lookup_states sc (n # ns) =
     (case states sc n of
        None \<Rightarrow> Inl (KeyError n)
      | Some s \<Rightarrow> (case lookup_states sc ns of Inl err \<Rightarrow> Inl err | Inr ss \<Rightarrow> Inr (s # ss)))"

text \<open>\<^verbatim>\<open>for event in ...: self.send(event, internal=True)\<close>\<close>

fun send_all :: "event list \<Rightarrow> 'x interpreter \<Rightarrow> 'x interpreter" where
  "send_all [] st = st"
| "send_all (e # es) st = send_all es (send e True st)"

text \<open>
  The loops over the exited and over the entered states: the code of a state is run when
  it is present and not empty, with no event, and each event it returns is sent as an
  internal event. The argument \<^term>\<open>code_of\<close> is \<^const>\<open>on_exit\<close> or \<^const>\<open>on_entry\<close>.
\<close>

fun run_state_actions ::
  "(state \<Rightarrow> code option) \<Rightarrow> state list \<Rightarrow> 'x interpreter \<Rightarrow> (unit, 'x) result" where
  "run_state_actions code_of [] st = (Inr (), st)"
| "run_state_actions code_of (s # ss) st =
     (case (if is_ActionStateMixin s then truthy (code_of s) else None) of
        None \<Rightarrow> run_state_actions code_of ss st
      | Some c \<Rightarrow>
          (case execute_action (evaluator st) (evaluator_state st) c None of
             (Inl err, x) \<Rightarrow> (Inl err, st\<lparr>evaluator_state := x\<rparr>)
           | (Inr evs, x) \<Rightarrow>
               run_state_actions code_of ss (send_all evs (st\<lparr>evaluator_state := x\<rparr>))))"

text \<open>
  History: for one exited compound state, the loop over its children. A child that is a
  history state gets the active descendants (deep) or the active children (shallow) of the
  compound state as its memory, in the order in which the runtime lists that set.
\<close>

fun record_history_children ::
  "state \<Rightarrow> name list \<Rightarrow> 'x interpreter \<Rightarrow> (unit, 'x) result" where
  "record_history_children s [] st = (Inr (), st)"
| "record_history_children s (child_name # cs) st =
     (case states (statechart st) child_name of
        None \<Rightarrow> (Inl (KeyError child_name), st)
      | Some child \<Rightarrow>
          (case child of
             HistoryState h ini deep \<Rightarrow>
               (if deep then
                  (let active = configuration st \<inter> set (descendants_for (statechart st) (state_name s))
                   in if \<not> card active \<ge> 1 then (Inl AssertionError, st)
                      else record_history_children s cs
                             (st\<lparr>memory := (memory st)(h \<mapsto> set_order st active)\<rparr>))
                else
                  (let active = configuration st \<inter> set (children s)
                   in if \<not> card active = 1 then (Inl AssertionError, st)
                      else record_history_children s cs
                             (st\<lparr>memory := (memory st)(h \<mapsto> set_order st active)\<rparr>)))
           | _ \<Rightarrow> record_history_children s cs st))"

fun record_history :: "state list \<Rightarrow> 'x interpreter \<Rightarrow> (unit, 'x) result" where
  "record_history [] st = (Inr (), st)"
| "record_history (s # ss) st =
     (case record_history_children s (children s) st of
        (Inl err, st') \<Rightarrow> (Inl err, st')
      | (Inr u, st') \<Rightarrow> record_history ss st')"

text \<open>
  The action of the transition: run with the event of the step; the events it returns
  are dropped (the call's value is not used).
\<close>

definition run_transition_action :: "microstep \<Rightarrow> 'x interpreter \<Rightarrow> (unit, 'x) result" where
  "run_transition_action step st =
     (case step_transition step of
        None \<Rightarrow> (Inr (), st)
      | Some t \<Rightarrow>
          (case truthy (action t) of
             None \<Rightarrow> (Inr (), st)
           | Some a \<Rightarrow>
               (case execute_action (evaluator st) (evaluator_state st) a (step_event step) of
                  (Inl err, x) \<Rightarrow> (Inl err, st\<lparr>evaluator_state := x\<rparr>)
                | (Inr evs, x) \<Rightarrow> (Inr (), st\<lparr>evaluator_state := x\<rparr>))))"

text \<open>\<^verbatim>\<open>_execute_step\<close>\<close>

definition execute_step :: "microstep \<Rightarrow> 'x interpreter \<Rightarrow> (unit, 'x) result" where
  "execute_step step st =
     (case lookup_states (statechart st) (entered_states step) of
        Inl err \<Rightarrow> (Inl err, st)
      | Inr entered \<Rightarrow>
     (case lookup_states (statechart st) (exited_states step) of
        Inl err \<Rightarrow> (Inl err, st)
      | Inr exited \<Rightarrow>
     (case run_state_actions on_exit exited st of
        (Inl err, st1) \<Rightarrow> (Inl err, st1)
      | (Inr u1, st1) \<Rightarrow>
     (case record_history (filter is_CompoundState exited) st1 of
        (Inl err, st2) \<Rightarrow> (Inl err, st2)
      | (Inr u2, st2) \<Rightarrow>
     (case run_transition_action step
             (st2\<lparr>configuration := configuration st2 - set (exited_states step)\<rparr>) of
        (Inl err, st3) \<Rightarrow> (Inl err, st3)
      | (Inr u3, st3) \<Rightarrow>
     (case run_state_actions on_entry entered st3 of
        (Inl err, st4) \<Rightarrow> (Inl err, st4)
      | (Inr u4, st4) \<Rightarrow>
          (Inr (), st4\<lparr>configuration := configuration st4 \<union> set (entered_states step)\<rparr>)))))))"

fun execute_steps :: "microstep list \<Rightarrow> 'x interpreter \<Rightarrow> (unit, 'x) result" where
  "execute_steps [] st = (Inr (), st)"
| "execute_steps (step # rest) st =
     (case execute_step step st of
        (Inl err, st') \<Rightarrow> (Inl err, st')
      | (Inr u, st') \<Rightarrow> execute_steps rest st')"

subsection \<open>Stabilization\<close>

text \<open>
  \<^verbatim>\<open>_compute_stabilization_step\<close>: the loop over the leaves. For a history leaf the
  list to enter is the stored memory, or a new list holding the fallback; it is sorted in
  place by depth, and when it is the stored list the memory holds the sorted list
  afterwards.
\<close>

fun stabilization_step_of ::
  "name list \<Rightarrow> 'x interpreter \<Rightarrow> (microstep option, 'x) result" where
  "stabilization_step_of [] st = (Inr None, st)"
| "stabilization_step_of (l # ls) st =
     (case states (statechart st) l of
        None \<Rightarrow> (Inl (KeyError l), st)
      | Some leaf \<Rightarrow>
          (case leaf of
             HistoryState h ini deep \<Rightarrow>
               (case memory st h of
                  None \<Rightarrow>
                    (Inr (Some (MicroStep None None
                       (Some (sort_key (depth_of (statechart st)) [ini])) (Some [h]))), st)
                | Some stored \<Rightarrow>
                    (let states_to_enter = sort_key (depth_of (statechart st)) stored
                     in (Inr (Some (MicroStep None None (Some states_to_enter) (Some [h]))),
                         st\<lparr>memory := (memory st)(h \<mapsto> states_to_enter)\<rparr>)))
           | OrthogonalState n en ex ts cs \<Rightarrow>
               (Inr (Some (MicroStep None None (Some cs) None)), st)
           | CompoundState n en ex ts cs ini \<Rightarrow>
               (case truthy ini of
                  Some i \<Rightarrow> (Inr (Some (MicroStep None None (Some [i]) None)), st)
                | None \<Rightarrow> stabilization_step_of ls st)
           | _ \<Rightarrow> stabilization_step_of ls st))"

definition compute_stabilization_step :: "'x interpreter \<Rightarrow> (microstep option, 'x) result" where
  "compute_stabilization_step st =
     stabilization_step_of (leaf_for (statechart st) (set_order st (configuration st))) st"

text \<open>
  \<^verbatim>\<open>_stabilize\<close>: a \<^verbatim>\<open>while\<close> loop that the source does not bound; a run that
  never leaves it has the value \<^term>\<open>None\<close>.
\<close>

partial_function (option) stabilize_loop ::
  "microstep list \<Rightarrow> 'x interpreter \<Rightarrow> (microstep list, 'x) result option" where
  "stabilize_loop done st =
     (case compute_stabilization_step st of
        (Inl err, st1) \<Rightarrow> Some (Inl err, st1)
      | (Inr None, st1) \<Rightarrow> Some (Inr done, st1)
      | (Inr (Some step), st1) \<Rightarrow>
          (case execute_step step st1 of
             (Inl err, st2) \<Rightarrow> Some (Inl err, st2)
           | (Inr u, st2) \<Rightarrow> stabilize_loop (done @ [step]) st2))"

declare stabilize_loop.simps [code]

definition stabilize :: "'x interpreter \<Rightarrow> (microstep list, 'x) result option" where
  "stabilize st = stabilize_loop [] st"

subsection \<open>Start and macro steps\<close>

text \<open>
  \<^verbatim>\<open>Interpreter.__init__\<close> and \<^verbatim>\<open>_start\<close>: empty memory, configuration and
  queue; the chart's entry code is run (its events are dropped), the initial state is
  entered and the chart is stabilized.
\<close>

definition new_interpreter ::
  "statechart \<Rightarrow> 'x evaluator \<Rightarrow> 'x \<Rightarrow> (name set \<Rightarrow> name list) \<Rightarrow> 'x interpreter" where
  "new_interpreter sc ev x ord =
     \<lparr>statechart = sc, evaluator = ev, evaluator_state = x, memory = Map.empty,
      configuration = {}, events = [], set_order = ord\<rparr>"

definition start :: "'x interpreter \<Rightarrow> (microstep list, 'x) result option" where
  "start st =
     (case (case truthy (chart_on_entry (statechart st)) of
              None \<Rightarrow> (Inr [], evaluator_state st)
            | Some c \<Rightarrow> execute_action (evaluator st) (evaluator_state st) c None) of
        (Inl err, x) \<Rightarrow> Some (Inl err, st\<lparr>evaluator_state := x\<rparr>)
      | (Inr evs, x) \<Rightarrow>
          (let step = MicroStep None None (Some [chart_initial (statechart st)]) None
           in case execute_step step (st\<lparr>evaluator_state := x\<rparr>) of
                (Inl err, st1) \<Rightarrow> Some (Inl err, st1)
              | (Inr u, st1) \<Rightarrow>
                  (case stabilize st1 of
                     None \<Rightarrow> None
                   | Some (Inl err, st2) \<Rightarrow> Some (Inl err, st2)
                   | Some (Inr stab, st2) \<Rightarrow> Some (Inr (step # stab), st2))))"

text \<open>
  The second half of \<^verbatim>\<open>execute_once\<close>, reached with a non-empty list of selected
  transitions: order them, compute their steps from the current configuration, apply the
  steps one after the other, stabilize.
\<close>

definition process_transitions ::
  "event option \<Rightarrow> transition list \<Rightarrow> 'x interpreter \<Rightarrow> (macrostep option, 'x) result option" where
  "process_transitions e ts st =
     (case sort_transitions (statechart st) ts of
        Inl err \<Rightarrow> Some (Inl err, st)
      | Inr sorted_ts \<Rightarrow>
          (let computed = compute_transitions_steps st e sorted_ts
           in case execute_steps computed st of
                (Inl err, st1) \<Rightarrow> Some (Inl err, st1)
              | (Inr u, st1) \<Rightarrow>
                  (case stabilize st1 of
                     None \<Rightarrow> None
                   | Some (Inl err, st2) \<Rightarrow> Some (Inl err, st2)
                   | Some (Inr stab, st2) \<Rightarrow> Some (Inr (Some (MacroStep (computed @ stab))), st2))))"

text \<open>
  \<^verbatim>\<open>execute_once\<close>: eventless transitions first; without any, the oldest event is
  taken off the queue, and an event that selects no transition gives a macro step of one
  micro step that holds the event only. \<^term>\<open>Inr None\<close> is the source's
  \<^verbatim>\<open>return None\<close>.
\<close>

definition execute_once :: "'x interpreter \<Rightarrow> (macrostep option, 'x) result option" where
  "execute_once st =
     (case select_eventless_transitions st of
        Inl err \<Rightarrow> Some (Inl err, st)
      | Inr eventless \<Rightarrow>
          (if length eventless = 0 then
             (case events st of
                [] \<Rightarrow> Some (Inr None, st)
              | ev # rest \<Rightarrow>
                  (let st1 = st\<lparr>events := rest\<rparr>
                   in case select_transitions st1 (Some ev) of
                        Inl err \<Rightarrow> Some (Inl err, st1)
                      | Inr ts \<Rightarrow>
                          if length ts = 0
                          then Some (Inr (Some (MacroStep [MicroStep (Some ev) None None None])), st1)
                          else process_transitions (Some ev) ts st1))
           else process_transitions None eventless st))"

section \<open>Vocabulary of the properties\<close>

text \<open>
  Check (1) of \<^verbatim>\<open>_sort_transitions\<close> for a pair: the least common ancestor of the two
  sources is a state of the chart and an orthogonal one.
\<close>

definition lca_orthogonal :: "statechart \<Rightarrow> transition \<Rightarrow> transition \<Rightarrow> bool" where
  "lca_orthogonal sc t1 t2 =
     (case least_common_ancestor sc (from_state t1) (from_state t2) of
        None \<Rightarrow> False
      | Some l \<Rightarrow> (case states sc l of None \<Rightarrow> False | Some s \<Rightarrow> is_OrthogonalState s))"

text \<open>A pair passes when check (1) holds and neither target leaves its branch, check (2).\<close>

definition pair_ok :: "statechart \<Rightarrow> transition \<Rightarrow> transition \<Rightarrow> bool" where
  "pair_ok sc t1 t2 =
     (lca_orthogonal sc t1 t2 \<and>
      target_in_branch sc (least_common_ancestor sc (from_state t1) (from_state t2)) t1 \<and>
      target_in_branch sc (least_common_ancestor sc (from_state t1) (from_state t2)) t2)"

text \<open>
  A leaf at which stabilization has nothing to do: a basic state, a final state, or a
  compound state whose \<^verbatim>\<open>initial\<close> is absent (or empty, which Python takes for absent).
\<close>

fun stable_leaf :: "state \<Rightarrow> bool" where
  "stable_leaf (BasicState _ _ _ _) = True"
| "stable_leaf (FinalState _ _ _) = True"
| "stable_leaf (CompoundState _ _ _ _ _ ini) = (truthy ini = None)"
| "stable_leaf _ = False"

text \<open>A compound state one of whose children is a history state.\<close>

fun is_HistoryState :: "state \<Rightarrow> bool" where
  "is_HistoryState (HistoryState _ _ _) = True"
| "is_HistoryState _ = False"

definition owns_history :: "statechart \<Rightarrow> state \<Rightarrow> bool" where
  "owns_history sc s =
     (is_CompoundState s \<and>
      list_ex (\<lambda>c. case states sc c of None \<Rightarrow> False | Some child \<Rightarrow> is_HistoryState child)
        (children s))"

text \<open>
  The events that the loop \<^const>\<open>run_state_actions\<close> receives from the evaluator, in the
  order in which the actions return them, up to the first action that fails.
\<close>

fun emitted :: "(state \<Rightarrow> code option) \<Rightarrow> state list \<Rightarrow> 'x interpreter \<Rightarrow> event list" where
  "emitted code_of [] st = []"
| "emitted code_of (s # ss) st =
     (case (if is_ActionStateMixin s then truthy (code_of s) else None) of
        None \<Rightarrow> emitted code_of ss st
      | Some c \<Rightarrow>
          (case execute_action (evaluator st) (evaluator_state st) c None of
             (Inl err, x) \<Rightarrow> []
           | (Inr evs, x) \<Rightarrow> evs @ emitted code_of ss (st\<lparr>evaluator_state := x\<rparr>)))"




section \<open>Example charts\<close>

text \<open>
  Modelled from the spec: the hierarchy queries of \<^verbatim>\<open>model.StateChart\<close> are missing.
  For the example charts they are computed from the table of states as the spec describes
  them: the ancestors of a state root-ward without the state itself, its depth as the
  number of its ancestors, its descendants without the state itself (here level by level,
  the children first), the least common ancestor as the deepest state that is an ancestor
  of, or equal to, both states, and the leaves of a list of states as those that are no
  ancestor of a state of the list.
\<close>

definition parent_of :: "(name \<times> state) list \<Rightarrow> name \<Rightarrow> name option" where
  "parent_of tbl n = map_option fst (find (\<lambda>(k, s). n \<in> set (children s)) tbl)"

fun ancestors_upto :: "(name \<times> state) list \<Rightarrow> nat \<Rightarrow> name \<Rightarrow> name list" where
  "ancestors_upto tbl 0 n = []"
| "ancestors_upto tbl (Suc k) n =
     (case parent_of tbl n of None \<Rightarrow> [] | Some p \<Rightarrow> p # ancestors_upto tbl k p)"

definition tree_ancestors :: "(name \<times> state) list \<Rightarrow> name \<Rightarrow> name list" where
  "tree_ancestors tbl n = ancestors_upto tbl (length tbl) n"

definition tree_depth :: "(name \<times> state) list \<Rightarrow> name \<Rightarrow> int" where
  "tree_depth tbl n = int (length (tree_ancestors tbl n))"

definition children_of :: "(name \<times> state) list \<Rightarrow> name \<Rightarrow> name list" where
  "children_of tbl n = (case map_of tbl n of None \<Rightarrow> [] | Some s \<Rightarrow> children s)"

fun levels_below :: "(name \<times> state) list \<Rightarrow> nat \<Rightarrow> name list \<Rightarrow> name list" where
  "levels_below tbl 0 ns = []"
| "levels_below tbl (Suc k) ns =
     (case concat (map (children_of tbl) ns) of
        [] \<Rightarrow> []
      | c # cs \<Rightarrow> (c # cs) @ levels_below tbl k (c # cs))"

definition tree_descendants :: "(name \<times> state) list \<Rightarrow> name \<Rightarrow> name list" where
  "tree_descendants tbl n = levels_below tbl (length tbl) [n]"

definition tree_lca :: "(name \<times> state) list \<Rightarrow> name \<Rightarrow> name \<Rightarrow> name option" where
  "tree_lca tbl a b =
     (let bs = b # tree_ancestors tbl b in find (\<lambda>x. x \<in> set bs) (a # tree_ancestors tbl a))"

definition tree_leaf_for :: "(name \<times> state) list \<Rightarrow> name list \<Rightarrow> name list" where
  "tree_leaf_for tbl cfg =
     (let ancs = concat (map (tree_ancestors tbl) cfg) in filter (\<lambda>s. s \<notin> set ancs) cfg)"

definition chart_of :: "(name \<times> state) list \<Rightarrow> name \<Rightarrow> code option \<Rightarrow> statechart" where
  "chart_of tbl ini en =
     \<lparr>states = map_of tbl, chart_initial = ini, chart_on_entry = en,
      ancestors_for = tree_ancestors tbl, descendants_for = tree_descendants tbl,
      least_common_ancestor = tree_lca tbl, depth_of = tree_depth tbl,
      leaf_for = tree_leaf_for tbl\<rparr>"

text \<open>
  An evaluator for the examples: every guard holds, and an action raises one event per
  character of its code, in that order (the action \<open>''xy''\<close> raises \<open>x\<close>, then \<open>y\<close>).
\<close>

definition spell :: "unit evaluator" where
  "spell =
     \<lparr>evaluate_condition = (\<lambda>x g e. Inr True),
      execute_action = (\<lambda>x c e. (Inr (map (\<lambda>ch. Event [ch]) c), x))\<rparr>"

definition on_event :: "name \<Rightarrow> string \<Rightarrow> name \<Rightarrow> transition" where
  "on_event src e tgt =
     \<lparr>from_state = src, to_state = Some tgt, event = Some (Event e), guard = None, action = None\<rparr>"

text \<open>
  A player: \<open>on\<close> holds a deep history state \<open>h\<close> and the compound state \<open>m\<close> with the
  tracks \<open>a\<close> and \<open>b\<close>; \<open>stop\<close> leaves \<open>on\<close> for \<open>off\<close>, \<open>start\<close> comes back through \<open>h\<close>.
  Leaving \<open>on\<close> raises \<open>x\<close> and \<open>y\<close>; the action of \<open>stop\<close> raises \<open>z\<close>.
\<close>

definition stop_transition :: transition where
  "stop_transition = (on_event ''on'' ''stop'' ''off'')\<lparr>action := Some ''z''\<rparr>"

definition start_transition :: transition where
  "start_transition = on_event ''off'' ''start'' ''h''"

definition on_state :: state where
  "on_state = CompoundState ''on'' None (Some ''xy'') [stop_transition] [''h'', ''m''] (Some ''m'')"

definition player_tbl :: "(name \<times> state) list" where
  "player_tbl =
     [(''root'', CompoundState ''root'' None None [] [''on'', ''off''] (Some ''on'')),
      (''on'', on_state),
      (''h'', HistoryState ''h'' ''m'' True),
      (''m'', CompoundState ''m'' None None [] [''a'', ''b''] (Some ''a'')),
      (''a'', BasicState ''a'' None None [on_event ''a'' ''next'' ''b'']),
      (''b'', BasicState ''b'' None None []),
      (''off'', BasicState ''off'' None None [start_transition])]"

definition player :: statechart where
  "player = chart_of player_tbl ''root'' None"

text \<open>
  An interpreter of the examples: the chart, the evaluator above, sets listed in
  alphabetical order, and the three fields that change. What a run leaves behind is
  compared with such a state field by field (\<open>observe\<close>), the memory at the names given.
\<close>

definition example_state ::
  "statechart \<Rightarrow> name set \<Rightarrow> (name \<rightharpoonup> name list) \<Rightarrow> event list \<Rightarrow> unit interpreter" where
  "example_state sc cfg mem q =
     \<lparr>statechart = sc, evaluator = spell, evaluator_state = (), memory = mem,
      configuration = cfg, events = q, set_order = sorted_list_of_set\<rparr>"

definition state_after :: "(('a, 'x) result) option \<Rightarrow> 'x interpreter \<Rightarrow> 'x interpreter" where
  "state_after r st = (case r of None \<Rightarrow> st | Some (v, st') \<Rightarrow> st')"

definition observe ::
  "'x interpreter \<Rightarrow> name list \<Rightarrow> name set \<times> event list \<times> 'x \<times> name list option list" where
  "observe st hs = (configuration st, events st, evaluator_state st, map (memory st) hs)"

text \<open>
  The states of a run of the player: started; with \<open>stop\<close> sent, and \<open>later\<close> sent after
  it, and with \<open>stop\<close> taken off that queue; after the macro step of \<open>stop\<close>; after the
  two macro steps that consume the events raised on leaving \<open>on\<close>; and inside the macro
  step of \<open>start\<close>, when the step of the transition has been applied and the history
  state \<open>h\<close> is the leaf.
\<close>

definition player_new :: "unit interpreter" where
  "player_new = new_interpreter player spell () sorted_list_of_set"

definition player_started :: "unit interpreter" where
  "player_started = example_state player {''root'', ''on'', ''m'', ''a''} Map.empty []"

definition player_stopping :: "unit interpreter" where
  "player_stopping = send (Event ''stop'') False player_started"

definition player_busy :: "unit interpreter" where
  "player_busy = send (Event ''later'') False player_stopping"

definition player_popped :: "unit interpreter" where
  "player_popped = player_busy\<lparr>events := tl (events player_busy)\<rparr>"

definition player_stopped :: "unit interpreter" where
  "player_stopped =
     example_state player {''root'', ''off''} [''h'' \<mapsto> [''a'', ''m'']] [Event ''y'', Event ''x'']"

definition player_drained :: "unit interpreter" where
  "player_drained = example_state player {''root'', ''off''} [''h'' \<mapsto> [''a'', ''m'']] []"

definition start_step :: microstep where
  "start_step = compute_transition_step player_drained (Some (Event ''start'')) start_transition"

definition player_at_history :: "unit interpreter" where
  "player_at_history =
     example_state player {''root'', ''on'', ''h''} [''h'' \<mapsto> [''a'', ''m'']] []"

text \<open>
  Two orthogonal states, one inside the other: \<open>P\<close> has the regions \<open>s1\<close> and \<open>q\<close>,
  \<open>s1\<close> has the regions \<open>r1\<close> (with \<open>a\<close> and \<open>b\<close>) and \<open>r2\<close> (with \<open>c\<close>). The event
  \<open>e\<close> moves \<open>a\<close> to \<open>b\<close> and restarts \<open>s1\<close>; \<open>r\<close> restarts \<open>P\<close>.
\<close>

definition restart_P :: transition where "restart_P = on_event ''P'' ''r'' ''P''"

definition nested_tbl :: "(name \<times> state) list" where
  "nested_tbl =
     [(''P'', OrthogonalState ''P'' None None [restart_P] [''s1'', ''q'']),
      (''s1'', OrthogonalState ''s1'' None None [on_event ''s1'' ''e'' ''s1''] [''r1'', ''r2'']),
      (''r1'', CompoundState ''r1'' None None [] [''a'', ''b''] (Some ''a'')),
      (''a'', BasicState ''a'' None None [on_event ''a'' ''e'' ''b'']),
      (''b'', BasicState ''b'' None None []),
      (''r2'', CompoundState ''r2'' None None [] [''c''] (Some ''c'')),
      (''c'', BasicState ''c'' None None []),
      (''q'', BasicState ''q'' None None [])]"

definition nested :: statechart where
  "nested = chart_of nested_tbl ''P'' None"

definition nested_new :: "unit interpreter" where
  "nested_new = new_interpreter nested spell () sorted_list_of_set"

definition nested_started :: "unit interpreter" where
  "nested_started =
     example_state nested {''P'', ''s1'', ''q'', ''r1'', ''r2'', ''a'', ''c''} Map.empty []"

text \<open>
  Two regions \<open>r1\<close> (with \<open>a\<close>) and \<open>r2\<close> (with \<open>c\<close> and \<open>d\<close>) of the orthogonal state
  \<open>O\<close>. On \<open>e\<close>, \<open>a\<close> leaves its region for \<open>c\<close>, and \<open>c\<close> has two transitions; on
  \<open>f\<close>, \<open>a\<close> and \<open>c\<close> each restart.
\<close>

definition regions_tbl :: "(name \<times> state) list" where
  "regions_tbl =
     [(''O'', OrthogonalState ''O'' None None [] [''r1'', ''r2'']),
      (''r1'', CompoundState ''r1'' None None [] [''a''] (Some ''a'')),
      (''r2'', CompoundState ''r2'' None None [] [''c'', ''d''] (Some ''c'')),
      (''a'', BasicState ''a'' None None [on_event ''a'' ''e'' ''c'', on_event ''a'' ''f'' ''a'']),
      (''c'', BasicState ''c'' None None
         [on_event ''c'' ''e'' ''c'', on_event ''c'' ''e'' ''d'', on_event ''c'' ''f'' ''c'']),
      (''d'', BasicState ''d'' None None [])]"

definition regions :: statechart where
  "regions = chart_of regions_tbl ''O'' None"

definition regions_new :: "unit interpreter" where
  "regions_new = new_interpreter regions spell () sorted_list_of_set"

definition regions_started :: "unit interpreter" where
  "regions_started = example_state regions {''O'', ''r1'', ''r2'', ''a'', ''c''} Map.empty []"

definition regions_pending :: "unit interpreter" where
  "regions_pending = send (Event ''e'') False regions_started"

definition leave_a :: transition where "leave_a = on_event ''a'' ''e'' ''c''"
definition stay_c :: transition where "stay_c = on_event ''c'' ''e'' ''c''"
definition move_c :: transition where "move_c = on_event ''c'' ''e'' ''d''"
definition restart_a :: transition where "restart_a = on_event ''a'' ''f'' ''a''"
definition restart_c :: transition where "restart_c = on_event ''c'' ''f'' ''c''"

section \<open>Properties\<close>

subsection \<open>The example runs\<close>

text \<open>Each state of the examples is what the interpreter reaches from the one before.\<close>

lemma player_run:
  "observe (state_after (start player_new) player_new) [''h''] = observe player_started [''h'']"
  "observe (state_after (execute_once player_stopping) player_stopping) [''h''] =
     observe player_stopped [''h'']"
  "observe (state_after (execute_once (state_after (execute_once player_stopped) player_stopped))
              (state_after (execute_once player_stopped) player_stopped)) [''h''] =
     observe player_drained [''h'']"
  "observe (snd (execute_step start_step player_drained)) [''h''] =
     observe player_at_history [''h'']"
  by code_simp+

lemma nested_run:
  "observe (state_after (start nested_new) nested_new) [] = observe nested_started []"
  by code_simp

lemma regions_run:
  "observe (state_after (start regions_new) regions_new) [] = observe regions_started []"
  by code_simp

subsection \<open>The consumed event of a macro step\<close>

text \<open>
  Claim C10. For every macro step, the property \<^verbatim>\<open>event\<close> returns \<^verbatim>\<open>None\<close>, also
  when the first micro step of the macro step carries a consumed event.
\<close>

theorem MacroStep_event_is_None: "MacroStep_event m = None"
  by (simp add: MacroStep_event_def split: list.split)

subsection \<open>An event that selects nothing\<close>

text \<open>Selecting transitions reads the configuration and the evaluator, never the queue.\<close>

lemma select_in_state_events [simp]:
  "select_in_state (st\<lparr>events := q\<rparr>) e ts found acc = select_in_state st e ts found acc"
  by (induction ts arbitrary: found acc) (simp_all cong: sum.case_cong option.case_cong if_cong)

lemma select_from_leaf_events [simp]:
  "select_from_leaf (st\<lparr>events := q\<rparr>) e ns acc = select_from_leaf st e ns acc"
  by (induction ns arbitrary: acc)
     (simp_all cong: sum.case_cong option.case_cong if_cong prod.case_cong)

lemma select_leaves_events [simp]:
  "select_leaves (st\<lparr>events := q\<rparr>) e ls acc = select_leaves st e ls acc"
  by (induction ls arbitrary: acc)
     (simp_all del: select_from_leaf.simps cong: sum.case_cong)

lemma select_transitions_events [simp]:
  "select_transitions (st\<lparr>events := q\<rparr>) e = select_transitions st e"
  by (simp add: select_transitions_def)

text \<open>
  Claim C7. When no eventless transition is enabled, so that the oldest event \<open>ev\<close> is
  taken off the queue, and no transition is enabled for \<open>ev\<close> either, then
  \<^const>\<open>execute_once\<close> raises no error and returns a macro step of exactly one micro step,
  which carries \<open>ev\<close>, no transition and empty lists of entered and exited states; the
  interpreter is as before but for the queue, which has lost \<open>ev\<close>, so the configuration
  (and the memory) is unchanged.
\<close>

theorem execute_once_unmatched_event:
  assumes "select_eventless_transitions st = Inr []"
    and "events st = ev # rest"
    and "select_transitions st (Some ev) = Inr []"
  shows "execute_once st =
           Some (Inr (Some \<lparr>steps = [\<lparr>step_event = Some ev, step_transition = None,
                                       entered_states = [], exited_states = []\<rparr>]\<rparr>),
                 st\<lparr>events := rest\<rparr>)
         \<and> configuration (st\<lparr>events := rest\<rparr>) = configuration st
         \<and> memory (st\<lparr>events := rest\<rparr>) = memory st"
  using assms by (simp add: execute_once_def MacroStep_def MicroStep_def)

text \<open>The stopped player holds the events \<open>y\<close> and \<open>x\<close>, which no transition waits for.\<close>

theorem execute_once_unmatched_event_witness:
  "select_eventless_transitions player_stopped = Inr []
   \<and> events player_stopped = Event ''y'' # [Event ''x'']
   \<and> select_transitions player_stopped (Some (Event ''y'')) = Inr []
   \<and> execute_once player_stopped =
           Some (Inr (Some \<lparr>steps = [\<lparr>step_event = Some (Event ''y''), step_transition = None,
                                       entered_states = [], exited_states = []\<rparr>]\<rparr>),
                 player_stopped\<lparr>events := [Event ''x'']\<rparr>)"
proof -
  have a: "select_eventless_transitions player_stopped = Inr []" by code_simp
  have b: "events player_stopped = Event ''y'' # [Event ''x'']" by code_simp
  have c: "select_transitions player_stopped (Some (Event ''y'')) = Inr []" by code_simp
  from execute_once_unmatched_event [OF a b c] a b c show ?thesis by simp
qed

subsection \<open>Stabilizing a stable configuration\<close>

lemma stabilization_step_of_stable:
  assumes "\<forall>l \<in> set ls. \<exists>s. states (statechart st) l = Some s \<and> stable_leaf s"
  shows "stabilization_step_of ls st = (Inr None, st)"
  using assms
proof (induction ls)
  case Nil
  then show ?case by simp
next
  case (Cons l ls)
  then obtain s where s: "states (statechart st) l = Some s" "stable_leaf s" by auto
  from Cons have rest: "stabilization_step_of ls st = (Inr None, st)" by simp
  show ?case using s rest by (cases s) simp_all
qed

text \<open>
  Claim C8. When every leaf of the configuration is a basic state, a final state or a
  compound state without an initial child, no stabilization step is computed, and the
  stabilizer returns (it does not loop) the empty list of steps and leaves the whole
  interpreter, with its configuration, memory and queue, as it was.
\<close>

theorem stabilize_stable_configuration:
  assumes "\<forall>l \<in> set (leaf_for (statechart st) (set_order st (configuration st))).
             \<exists>s. states (statechart st) l = Some s \<and> stable_leaf s"
  shows "compute_stabilization_step st = (Inr None, st) \<and> stabilize st = Some (Inr [], st)"
proof -
  have c: "compute_stabilization_step st = (Inr None, st)"
    unfolding compute_stabilization_step_def by (rule stabilization_step_of_stable [OF assms])
  show ?thesis using c by (simp add: stabilize_def stabilize_loop.simps)
qed

text \<open>The started player has the single leaf \<open>a\<close>, a basic state.\<close>

theorem stabilize_stable_configuration_witness:
  "list_all (\<lambda>l. case states (statechart player_started) l of None \<Rightarrow> False | Some s \<Rightarrow> stable_leaf s)
      (leaf_for (statechart player_started) (set_order player_started (configuration player_started)))
   \<and> leaf_for (statechart player_started) (set_order player_started (configuration player_started)) = [''a'']
   \<and> stabilize player_started = Some (Inr [], player_started)"
proof -
  have a: "list_all (\<lambda>l. case states (statechart player_started) l of None \<Rightarrow> False | Some s \<Rightarrow> stable_leaf s)
      (leaf_for (statechart player_started) (set_order player_started (configuration player_started)))"
    by code_simp
  have b: "leaf_for (statechart player_started) (set_order player_started (configuration player_started)) = [''a'']"
    by code_simp
  from a have h: "\<forall>l \<in> set (leaf_for (statechart player_started) (set_order player_started (configuration player_started))).
             \<exists>s. states (statechart player_started) l = Some s \<and> stable_leaf s"
    by (auto simp: list_all_iff split: option.splits)
  from stabilize_stable_configuration [OF h] a b show ?thesis by simp
qed

subsection \<open>Ordering the selected transitions\<close>

text \<open>The error of a pair, and the error of the loop: that of the first pair that fails.\<close>

lemma check_pair_eq:
  "check_pair sc t1 t2 =
     (if pair_ok sc t1 t2 then None
      else Some (if lca_orthogonal sc t1 t2 then ConflictError else NonDeterminismError))"
  by (simp add: check_pair_def pair_ok_def lca_orthogonal_def Let_def split: option.split)

lemma check_pairs_find:
  "check_pairs sc ps =
     (case find (\<lambda>(t1, t2). \<not> pair_ok sc t1 t2) ps of
        None \<Rightarrow> None
      | Some (u1, u2) \<Rightarrow>
          Some (if lca_orthogonal sc u1 u2 then ConflictError else NonDeterminismError))"
  by (induction ps) (auto simp: check_pair_eq)

text \<open>
  Claim C2, as the code has it. The pairs are checked in the order of
  \<^verbatim>\<open>combinations\<close>, and for each pair the least common ancestor first, then the two
  targets; the first failing check raises. So, for two or more transitions of which some
  pair has a least common ancestor that is not orthogonal or a target outside its branch,
  ordering fails, and the error is decided by the first such pair \<open>(u1, u2)\<close>: a
  NonDeterminismError when its least common ancestor is not orthogonal, a ConflictError
  otherwise. Nothing has been applied then: \<^const>\<open>execute_once\<close> ends with the
  interpreter it started with, except that the event it took off the queue, if it took
  one, is gone.
\<close>

theorem ordering_failure:
  assumes "1 < length ts"
    and "\<not> list_all (\<lambda>(t1, t2). pair_ok (statechart st) t1 t2) (combinations2 ts)"
  shows "\<exists>u1 u2 err.
           find (\<lambda>(t1, t2). \<not> pair_ok (statechart st) t1 t2) (combinations2 ts) = Some (u1, u2)
         \<and> err = (if lca_orthogonal (statechart st) u1 u2 then ConflictError
                  else NonDeterminismError)
         \<and> sort_transitions (statechart st) ts = Inl err
         \<and> process_transitions e ts st = Some (Inl err, st)
         \<and> (select_eventless_transitions st = Inr ts \<longrightarrow> execute_once st = Some (Inl err, st))
         \<and> (select_eventless_transitions st = Inr [] \<and> events st = ev # rest \<and>
              select_transitions st (Some ev) = Inr ts \<longrightarrow>
              execute_once st = Some (Inl err, st\<lparr>events := rest\<rparr>))"
proof -
  let ?bad = "\<lambda>(t1, t2). \<not> pair_ok (statechart st) t1 t2"
  from assms(2) obtain p where "p \<in> set (combinations2 ts)" "?bad p"
    by (auto simp: list_all_iff)
  then have "find ?bad (combinations2 ts) \<noteq> None"
    by (auto simp: find_None_iff)
  then obtain u1 u2 where f: "find ?bad (combinations2 ts) = Some (u1, u2)"
    by (cases "find ?bad (combinations2 ts)") auto
  define err where
    "err = (if lca_orthogonal (statechart st) u1 u2 then ConflictError else NonDeterminismError)"
  have c: "check_pairs (statechart st) (combinations2 ts) = Some err"
    by (simp add: check_pairs_find f err_def)
  have s: "sort_transitions (statechart st) ts = Inl err"
    using assms(1) c by (simp add: sort_transitions_def)
  have p: "process_transitions e' ts st' = Some (Inl err, st')" if "statechart st' = statechart st"
    for e' and st' :: "'a interpreter"
    using s that by (simp add: process_transitions_def)
  have n: "length ts \<noteq> 0" using assms(1) by auto
  have e1: "execute_once st = Some (Inl err, st)" if "select_eventless_transitions st = Inr ts"
    using that n p [of st None] by (simp add: execute_once_def)
  have e2: "execute_once st = Some (Inl err, st\<lparr>events := rest\<rparr>)"
    if "select_eventless_transitions st = Inr []" "events st = ev # rest"
       "select_transitions st (Some ev) = Inr ts"
    using that n p [of "st\<lparr>events := rest\<rparr>" "Some ev"] by (simp add: execute_once_def Let_def)
  show ?thesis using f err_def s p [of st e] e1 e2 by blast
qed

text \<open>
  In the chart of the two regions the event \<open>e\<close> selects three transitions; the first pair
  has an orthogonal least common ancestor and a target that leaves its region.
\<close>

theorem ordering_failure_witness:
  "1 < length [leave_a, stay_c, move_c]
   \<and> \<not> list_all (\<lambda>(t1, t2). pair_ok (statechart regions_pending) t1 t2)
          (combinations2 [leave_a, stay_c, move_c])
   \<and> select_eventless_transitions regions_pending = Inr []
   \<and> events regions_pending = Event ''e'' # []
   \<and> select_transitions regions_pending (Some (Event ''e'')) = Inr [leave_a, stay_c, move_c]
   \<and> sort_transitions (statechart regions_pending) [leave_a, stay_c, move_c] = Inl ConflictError
   \<and> execute_once regions_pending = Some (Inl ConflictError, regions_pending\<lparr>events := []\<rparr>)"
proof -
  have a: "1 < length [leave_a, stay_c, move_c]" by simp
  have b: "\<not> list_all (\<lambda>(t1, t2). pair_ok (statechart regions_pending) t1 t2)
          (combinations2 [leave_a, stay_c, move_c])" by code_simp
  have c: "select_eventless_transitions regions_pending = Inr []" by code_simp
  have d: "events regions_pending = Event ''e'' # []" by code_simp
  have s: "select_transitions regions_pending (Some (Event ''e'')) = Inr [leave_a, stay_c, move_c]"
    by code_simp
  have f: "find (\<lambda>(t1, t2). \<not> pair_ok (statechart regions_pending) t1 t2)
             (combinations2 [leave_a, stay_c, move_c]) = Some (leave_a, stay_c)" by code_simp
  have l: "lca_orthogonal (statechart regions_pending) leave_a stay_c" by code_simp
  from ordering_failure [OF a b, of None "Event ''e''" "[]"] f l c d s
  have "sort_transitions (statechart regions_pending) [leave_a, stay_c, move_c] = Inl ConflictError
      \<and> execute_once regions_pending = Some (Inl ConflictError, regions_pending\<lparr>events := []\<rparr>)"
    by auto
  with a b c d s show ?thesis by simp
qed

text \<open>
  Claim C2 as stated fails there: the pair of the two transitions of \<open>c\<close> has a least
  common ancestor that is not orthogonal, and yet the error is the ConflictError of the
  first pair, not a NonDeterminismError.
\<close>

theorem error_kind_counterexample:
  "select_transitions regions_pending (Some (Event ''e'')) = Inr [leave_a, stay_c, move_c]
   \<and> (stay_c, move_c) \<in> set (combinations2 [leave_a, stay_c, move_c])
   \<and> \<not> lca_orthogonal regions stay_c move_c
   \<and> sort_transitions regions [leave_a, stay_c, move_c] = Inl ConflictError
   \<and> sort_transitions regions [leave_a, stay_c, move_c] \<noteq> Inl NonDeterminismError"
  by code_simp


text \<open>Inserting into a list sorted by key, then by an earlier order.\<close>

lemma insort_key_lex:
  assumes "sorted_wrt (\<lambda>a b. f a < f b \<or> (f a = f b \<and> R a b)) ys"
    and "\<forall>y \<in> set ys. R x y"
  shows "sorted_wrt (\<lambda>a b. f a < f b \<or> (f a = f b \<and> R a b)) (insort_key f x ys)"
  using assms
proof (induction ys)
  case Nil
  then show ?case by simp
next
  case (Cons y ys)
  show ?case
  proof (cases "f x \<le> f y")
    case True
    have "\<forall>z \<in> set (y # ys). f x < f z \<or> (f x = f z \<and> R x z)"
    proof
      fix z assume z: "z \<in> set (y # ys)"
      have "f y \<le> f z" using Cons.prems(1) z by auto
      with True have "f x \<le> f z" by simp
      moreover have "R x z" using Cons.prems(2) z by auto
      ultimately show "f x < f z \<or> (f x = f z \<and> R x z)" by auto
    qed
    with True Cons.prems(1) show ?thesis by simp
  next
    case False
    from Cons have "sorted_wrt (\<lambda>a b. f a < f b \<or> (f a = f b \<and> R a b)) (insort_key f x ys)"
      by simp
    moreover have "\<forall>z \<in> set (insort_key f x ys). f y < f z \<or> (f y = f z \<and> R y z)"
      using False Cons.prems(1) by (auto simp: set_insort_key)
    ultimately show ?thesis using False by simp
  qed
qed

lemma sort_key_lex:
  assumes "sorted_wrt R xs"
  shows "sorted_wrt (\<lambda>a b. f a < f b \<or> (f a = f b \<and> R a b)) (sort_key f xs)"
  using assms
proof (induction xs)
  case Nil
  then show ?case by simp
next
  case (Cons x xs)
  then show ?case by (simp add: insort_key_lex)
qed

lemma sort_key_sorted_wrt: "sorted_wrt (\<lambda>a b. f a \<le> f b) (sort_key f xs)"
  using sorted_sort_key [of f xs] by (simp add: sorted_map)

text \<open>
  Claim C5, as the code has it. For more than one transition, all pairs passing the two
  checks, the result is the list sorted by source name descending, then stably by source
  depth ascending, then reversed. It is a permutation of the input in which a transition
  with a deeper source comes before one with a shallower source, and among sources of
  equal depth the names ascend (the reversal turns the descending names around).
\<close>

theorem sort_transitions_order:
  assumes "1 < length ts"
    and "\<forall>(t1, t2) \<in> set (combinations2 ts). pair_ok sc t1 t2"
  shows "sort_transitions sc ts =
           Inr (rev (sort_key (\<lambda>t. depth_of sc (from_state t)) (rev (sort_key from_state (rev ts)))))
         \<and> (\<exists>r. sort_transitions sc ts = Inr r \<and> mset r = mset ts \<and>
               sorted_wrt (\<lambda>t u. depth_of sc (from_state u) < depth_of sc (from_state t) \<or>
                                 (depth_of sc (from_state u) = depth_of sc (from_state t) \<and>
                                  from_state t \<le> from_state u)) r)"
proof -
  let ?d = "\<lambda>t. depth_of sc (from_state t)"
  let ?byname = "rev (sort_key from_state (rev ts))"
  let ?r = "rev (sort_key ?d ?byname)"
  have "find (\<lambda>(t1, t2). \<not> pair_ok sc t1 t2) (combinations2 ts) = None"
    using assms(2) by (auto simp: find_None_iff)
  then have "check_pairs sc (combinations2 ts) = None"
    by (simp add: check_pairs_find)
  with assms(1) have eq: "sort_transitions sc ts = Inr ?r"
    by (simp add: sort_transitions_def sorted_py_def)
  have "sorted_wrt (\<lambda>a b. from_state b \<le> from_state a) ?byname"
    using sort_key_sorted_wrt [of from_state "rev ts"] by (simp add: sorted_wrt_rev)
  then have "sorted_wrt (\<lambda>a b. ?d a < ?d b \<or> (?d a = ?d b \<and> from_state b \<le> from_state a))
               (sort_key ?d ?byname)"
    by (rule sort_key_lex)
  then have "sorted_wrt (\<lambda>t u. ?d u < ?d t \<or> (?d u = ?d t \<and> from_state t \<le> from_state u)) ?r"
    by (simp add: sorted_wrt_rev)
  moreover have "mset ?r = mset ts" by simp
  ultimately show ?thesis using eq by simp
qed

text \<open>The two restarts on \<open>f\<close> in the chart of the two regions, given as \<open>c\<close> then \<open>a\<close>.\<close>

theorem sort_transitions_order_witness:
  "1 < length [restart_c, restart_a]
   \<and> list_all (\<lambda>(t1, t2). pair_ok regions t1 t2) (combinations2 [restart_c, restart_a])
   \<and> sort_transitions regions [restart_c, restart_a] = Inr [restart_a, restart_c]"
proof -
  have a: "1 < length [restart_c, restart_a]" by simp
  have b: "list_all (\<lambda>(t1, t2). pair_ok regions t1 t2) (combinations2 [restart_c, restart_a])"
    by code_simp
  then have b': "\<forall>(t1, t2) \<in> set (combinations2 [restart_c, restart_a]). pair_ok regions t1 t2"
    by (simp add: list_all_iff)
  have c: "rev (sort_key (\<lambda>t. depth_of regions (from_state t)) (rev (sort_key from_state (rev [restart_c, restart_a]))))
       = [restart_a, restart_c]" by code_simp
  from sort_transitions_order [OF a b'] a b c show ?thesis by simp
qed

text \<open>
  Claim C5 as stated fails there: \<open>a\<close> and \<open>c\<close> have the same depth, the transition of
  \<open>a\<close> comes first, and the result is not in descending order of names.
\<close>

theorem name_descending_tie_break_counterexample:
  "select_transitions regions_started (Some (Event ''f'')) = Inr [restart_a, restart_c]
   \<and> sort_transitions regions [restart_a, restart_c] = Inr [restart_a, restart_c]
   \<and> depth_of regions (from_state restart_a) = depth_of regions (from_state restart_c)
   \<and> from_state restart_a < from_state restart_c
   \<and> \<not> sorted_wrt (\<lambda>t u. depth_of regions (from_state u) < depth_of regions (from_state t) \<or>
                        (depth_of regions (from_state u) = depth_of regions (from_state t) \<and>
                         from_state u \<le> from_state t)) [restart_a, restart_c]"
  by code_simp

subsection \<open>Events raised while a step is applied\<close>

text \<open>
  Sending a list of events one by one to the front of the queue leaves them there in
  reverse; the other parts of a step do not touch the queue.
\<close>

lemma send_all_events: "send_all evs st = st\<lparr>events := rev evs @ events st\<rparr>"
  by (induction evs arbitrary: st) (simp_all add: send_def)

lemma emitted_same_evaluator:
  assumes "evaluator st = evaluator st'" and "evaluator_state st = evaluator_state st'"
  shows "emitted code_of ss st = emitted code_of ss st'"
  using assms
proof (induction ss arbitrary: st st')
  case Nil
  then show ?case by simp
next
  case (Cons s ss)
  have "emitted code_of ss (st\<lparr>evaluator_state := x\<rparr>) =
        emitted code_of ss (st'\<lparr>evaluator_state := x\<rparr>)" for x
    using Cons.prems by (intro Cons.IH) simp_all
  moreover have "emitted code_of ss st = emitted code_of ss st'"
    using Cons.prems by (intro Cons.IH)
  ultimately show ?case using Cons.prems
    by (simp split: option.split sum.split prod.split)
qed

lemma emitted_events [simp]: "emitted code_of ss (st\<lparr>events := q\<rparr>) = emitted code_of ss st"
  by (rule emitted_same_evaluator) simp_all

lemma run_state_actions_events:
  "events (snd (run_state_actions code_of ss st)) = rev (emitted code_of ss st) @ events st"
proof (induction ss arbitrary: st)
  case Nil
  then show ?case by simp
next
  case (Cons s ss)
  show ?case
  proof (cases "if is_ActionStateMixin s then truthy (code_of s) else None")
    case None
    then show ?thesis using Cons by simp
  next
    case (Some c)
    obtain r x where ex: "execute_action (evaluator st) (evaluator_state st) c None = (r, x)"
      by (cases "execute_action (evaluator st) (evaluator_state st) c None")
    show ?thesis
    proof (cases r)
      case (Inl err)
      then show ?thesis using Some ex by simp
    next
      case (Inr evs)
      then show ?thesis using Some ex Cons [of "send_all evs (st\<lparr>evaluator_state := x\<rparr>)"]
        by (simp add: send_all_events)
    qed
  qed
qed

lemma record_history_children_events [simp]:
  "events (snd (record_history_children s cs st)) = events st"
  by (induction cs arbitrary: st) (auto split: option.splits state.splits simp: Let_def)

lemma record_history_events [simp]: "events (snd (record_history ss st)) = events st"
proof (induction ss arbitrary: st)
  case Nil
  then show ?case by simp
next
  case (Cons s ss)
  obtain r st' where h: "record_history_children s (children s) st = (r, st')"
    by (cases "record_history_children s (children s) st")
  have "events st' = events st" using record_history_children_events [of s "children s" st] h by simp
  then show ?case using h Cons [of st'] by (cases r) simp_all
qed

lemma run_transition_action_events [simp]:
  "events (snd (run_transition_action step st)) = events st"
  by (auto simp: run_transition_action_def split: option.splits sum.splits prod.splits)

lemma execute_step_events:
  "\<exists>new. events (snd (execute_step step st)) = new @ events st"
proof -
  show ?thesis
  proof (cases "lookup_states (statechart st) (entered_states step)")
    case (Inl e)
    then show ?thesis by (simp add: execute_step_def)
  next
    case entered: (Inr entered)
    show ?thesis
    proof (cases "lookup_states (statechart st) (exited_states step)")
      case (Inl e)
      then show ?thesis using entered by (simp add: execute_step_def)
    next
      case exited: (Inr exited)
      obtain r1 st1 where a1: "run_state_actions on_exit exited st = (r1, st1)"
        by (cases "run_state_actions on_exit exited st")
      have q1: "events st1 = rev (emitted on_exit exited st) @ events st"
        using run_state_actions_events [of on_exit exited st] a1 by simp
      obtain r2 st2 where a2: "record_history (filter is_CompoundState exited) st1 = (r2, st2)"
        by (cases "record_history (filter is_CompoundState exited) st1")
      have q2: "events st2 = events st1"
        using record_history_events [of "filter is_CompoundState exited" st1] a2 by simp
      let ?st2' = "st2\<lparr>configuration := configuration st2 - set (exited_states step)\<rparr>"
      obtain r3 st3 where a3: "run_transition_action step ?st2' = (r3, st3)"
        by (cases "run_transition_action step ?st2'")
      have q3: "events st3 = events st2"
        using run_transition_action_events [of step ?st2'] a3 by simp
      obtain r4 st4 where a4: "run_state_actions on_entry entered st3 = (r4, st4)"
        by (cases "run_state_actions on_entry entered st3")
      have q4: "events st4 = rev (emitted on_entry entered st3) @ events st3"
        using run_state_actions_events [of on_entry entered st3] a4 by simp
      show ?thesis
        using entered exited a1 a2 a3 a4 q1 q2 q3 q4
        by (cases r1; cases r2; cases r3; cases r4) (simp_all add: execute_step_def)
    qed
  qed
qed

text \<open>
  Claim C4, as the code has it. When the exit or entry code of a state returns the events
  \<open>evs\<close>, each of them is put at the front of the queue in turn: right after the action
  the queue is \<open>evs\<close> reversed, followed by the queue as it was. At the end of the loop
  these events are still one block, in the reverse of their emission order, ahead of
  every event queued before the action and behind the events of the later actions of the
  loop. A whole step only adds events in front of the queue it found.
\<close>

theorem internal_events_order:
  assumes "is_ActionStateMixin s"
    and "truthy (code_of s) = Some c"
    and "execute_action (evaluator st) (evaluator_state st) c None = (Inr evs, x)"
  shows "run_state_actions code_of (s # ss) st =
           run_state_actions code_of ss (st\<lparr>evaluator_state := x, events := rev evs @ events st\<rparr>)
         \<and> events (snd (run_state_actions code_of (s # ss) st)) =
             rev (emitted code_of ss (st\<lparr>evaluator_state := x\<rparr>)) @ rev evs @ events st
         \<and> (\<exists>new. events (snd (execute_step step st)) = new @ events st)"
proof -
  have "run_state_actions code_of (s # ss) st =
          run_state_actions code_of ss (st\<lparr>evaluator_state := x, events := rev evs @ events st\<rparr>)"
    using assms by (simp add: send_all_events)
  moreover have "events (snd (run_state_actions code_of (s # ss) st)) =
             rev (emitted code_of ss (st\<lparr>evaluator_state := x\<rparr>)) @ rev evs @ events st"
    using assms run_state_actions_events [of code_of "s # ss" st] by simp
  ultimately show ?thesis using execute_step_events [of step st] by simp
qed


text \<open>
  Leaving \<open>on\<close> in the player, with the event \<open>later\<close> waiting: \<open>x\<close> and \<open>y\<close> are raised in
  that order and are queued as \<open>y\<close>, \<open>x\<close>, ahead of \<open>later\<close>.
\<close>

theorem internal_events_order_witness:
  "is_ActionStateMixin on_state
   \<and> truthy (on_exit on_state) = Some ''xy''
   \<and> execute_action (evaluator player_popped) (evaluator_state player_popped) ''xy'' None =
       (Inr [Event ''x'', Event ''y''], ())
   \<and> events player_popped = [Event ''later'']
   \<and> events (snd (run_state_actions on_exit [on_state] player_popped)) =
       [Event ''y'', Event ''x'', Event ''later'']"
proof -
  have a: "is_ActionStateMixin on_state" by code_simp
  have b: "truthy (on_exit on_state) = Some ''xy''" by code_simp
  have c: "execute_action (evaluator player_popped) (evaluator_state player_popped) ''xy'' None =
       (Inr [Event ''x'', Event ''y''], ())" by code_simp
  have d: "events player_popped = [Event ''later'']" by code_simp
  from internal_events_order [where s = on_state and code_of = on_exit and st = player_popped
      and ss = "[]" and step = start_step, OF a b c] a b c d
  show ?thesis by simp
qed

text \<open>
  Claim C4 as stated fails there: in the macro step of \<open>stop\<close> the exit code of \<open>on\<close>
  raises \<open>x\<close> before \<open>y\<close>, and the queue holds \<open>y\<close> before \<open>x\<close>.
\<close>

theorem emission_order_counterexample:
  "states (statechart player_busy) ''on'' = Some on_state
   \<and> on_exit on_state = Some ''xy''
   \<and> execute_action (evaluator player_busy) (evaluator_state player_busy) ''xy'' None =
       (Inr [Event ''x'', Event ''y''], ())
   \<and> events player_busy = [Event ''stop'', Event ''later'']
   \<and> (case execute_once player_busy of
        Some (Inr (Some m), st) \<Rightarrow>
          MacroStep_exited_states m = [''a'', ''m'', ''on'']
          \<and> events st = [Event ''y'', Event ''x'', Event ''later'']
      | _ \<Rightarrow> False)"
  by code_simp

text \<open>
  Claim C3 at a failing input. The transition \<open>stop\<close> of the player carries the action
  \<open>z\<close>, which raises the event \<open>z\<close>. The macro step of \<open>stop\<close> fires that transition, and
  the queue afterwards holds the events of the exit code of \<open>on\<close> only: the event raised
  by the action of the transition was never queued.
\<close>

theorem transition_action_events_dropped:
  "execute_action (evaluator player_stopping) (evaluator_state player_stopping) ''z''
       (Some (Event ''stop'')) = (Inr [Event ''z''], ())
   \<and> events player_stopping = [Event ''stop'']
   \<and> (case execute_once player_stopping of
        Some (Inr (Some m), st) \<Rightarrow>
          map action (MacroStep_transitions m) = [Some ''z'']
          \<and> events st = [Event ''y'', Event ''x'']
      | _ \<Rightarrow> False)"
  by code_simp

subsection \<open>What changes the history memory\<close>

text \<open>The loops over the states and the action of the transition keep memory and chart.\<close>

lemma run_state_actions_memory [simp]:
  "memory (snd (run_state_actions code_of ss st)) = memory st"
  by (induction ss arbitrary: st)
     (auto simp: send_all_events split: option.splits sum.splits prod.splits)

lemma run_state_actions_statechart [simp]:
  "statechart (snd (run_state_actions code_of ss st)) = statechart st"
  by (induction ss arbitrary: st)
     (auto simp: send_all_events split: option.splits sum.splits prod.splits)

lemma run_transition_action_memory [simp]:
  "memory (snd (run_transition_action step st)) = memory st"
  by (auto simp: run_transition_action_def split: option.splits sum.splits prod.splits)

text \<open>Without a history state among the children, nothing is recorded.\<close>

lemma record_history_children_none:
  assumes "\<not> list_ex (\<lambda>c. case states (statechart st) c of None \<Rightarrow> False
                                                     | Some child \<Rightarrow> is_HistoryState child) cs"
  shows "snd (record_history_children s cs st) = st"
  using assms
proof (induction cs)
  case Nil
  then show ?case by simp
next
  case (Cons c cs)
  then show ?case by (cases "states (statechart st) c") (auto split: state.splits)
qed

lemma record_history_none:
  assumes "\<forall>s \<in> set ss. \<not> owns_history (statechart st) s" and "\<forall>s \<in> set ss. is_CompoundState s"
  shows "snd (record_history ss st) = st"
  using assms
proof (induction ss)
  case Nil
  then show ?case by simp
next
  case (Cons s ss)
  have "snd (record_history_children s (children s) st) = st"
    using Cons.prems by (intro record_history_children_none) (simp add: owns_history_def)
  moreover have "snd (record_history ss st) = st" using Cons by simp
  ultimately show ?case
    by (cases "record_history_children s (children s) st"; cases "fst (record_history_children s (children s) st)") simp_all
qed

lemma lookup_states_found:
  "lookup_states sc ns = Inr ss \<Longrightarrow> \<forall>s \<in> set ss. \<exists>n \<in> set ns. states sc n = Some s"
  by (induction ns arbitrary: ss) (auto split: option.splits sum.splits)

lemma execute_step_memory:
  assumes "\<forall>n \<in> set (exited_states step). \<forall>s. states (statechart st) n = Some s \<longrightarrow>
             \<not> owns_history (statechart st) s"
  shows "memory (snd (execute_step step st)) = memory st"
proof (cases "lookup_states (statechart st) (entered_states step)")
  case (Inl e)
  then show ?thesis by (simp add: execute_step_def)
next
  case entered: (Inr entered)
  show ?thesis
  proof (cases "lookup_states (statechart st) (exited_states step)")
    case (Inl e)
    then show ?thesis using entered by (simp add: execute_step_def)
  next
    case exited: (Inr exited)
    obtain r1 st1 where a1: "run_state_actions on_exit exited st = (r1, st1)"
      by (cases "run_state_actions on_exit exited st")
    have m1: "memory st1 = memory st" and c1: "statechart st1 = statechart st"
      using run_state_actions_memory [of on_exit exited st]
        run_state_actions_statechart [of on_exit exited st] a1 by simp_all
    have no: "\<forall>s \<in> set (filter is_CompoundState exited). \<not> owns_history (statechart st1) s"
      using lookup_states_found [OF exited] assms c1 by fastforce
    have co: "\<forall>s \<in> set (filter is_CompoundState exited). is_CompoundState s" by simp
    obtain r2 st2 where a2: "record_history (filter is_CompoundState exited) st1 = (r2, st2)"
      by (cases "record_history (filter is_CompoundState exited) st1")
    have f2: "st2 = st1" using record_history_none [OF no co] a2 by simp
    let ?st2' = "st2\<lparr>configuration := configuration st2 - set (exited_states step)\<rparr>"
    obtain r3 st3 where a3: "run_transition_action step ?st2' = (r3, st3)"
      by (cases "run_transition_action step ?st2'")
    have "memory st3 = memory st2"
      using run_transition_action_memory [of step ?st2'] a3 by simp
    then have m3: "memory st3 = memory st" using f2 m1 by simp
    obtain r4 st4 where a4: "run_state_actions on_entry entered st3 = (r4, st4)"
      by (cases "run_state_actions on_entry entered st3")
    have m4: "memory st4 = memory st"
      using run_state_actions_memory [of on_entry entered st3] a4 m3 by simp
    show ?thesis
      using entered exited a1 a2 a3 a4 m1 f2 m3 m4
      by (cases r1; cases r2; cases r3; cases r4) (simp_all add: execute_step_def)
  qed
qed

text \<open>Computing a stabilization step keeps the memory or sorts one of its lists.\<close>

lemma stabilization_step_of_memory:
  "snd (stabilization_step_of ls st) = st \<or>
   (\<exists>h stored. memory st h = Some stored \<and>
      snd (stabilization_step_of ls st) =
        st\<lparr>memory := (memory st)(h \<mapsto> sort_key (depth_of (statechart st)) stored)\<rparr>)"
proof (induction ls)
  case Nil
  then show ?case by simp
next
  case (Cons l ls)
  show ?case
  proof (cases "states (statechart st) l")
    case None
    then show ?thesis by simp
  next
    case (Some leaf)
    show ?thesis
    proof (cases leaf)
      case (HistoryState h ini deep)
      show ?thesis
      proof (cases "memory st h")
        case None
        then show ?thesis using Some HistoryState by simp
      next
        case stored: (Some stored)
        have "snd (stabilization_step_of (l # ls) st) =
                st\<lparr>memory := (memory st)(h \<mapsto> sort_key (depth_of (statechart st)) stored)\<rparr>"
          using Some HistoryState stored by (simp add: Let_def)
        with stored show ?thesis by blast
      qed
    next
      case (CompoundState n en ex ts cs ini)
      then show ?thesis using Some Cons by (cases "truthy ini") simp_all
    qed (use Some Cons in simp_all)
  qed
qed

text \<open>
  Claim C9, as the code has it. Applying a step none of whose exited states is a compound
  state with a history child leaves the memory as it is, and so does sending an event.
  Computing a stabilization step never changes the keys of the memory nor the names
  stored under a key, but it is not without effect: when the leaf is a history state
  that has a stored list, that list is sorted by depth in place, so the memory holds the
  sorted list afterwards.
\<close>

theorem memory_frame:
  assumes "\<forall>n \<in> set (exited_states step). \<forall>s. states (statechart st) n = Some s \<longrightarrow>
             \<not> owns_history (statechart st) s"
  shows "memory (snd (execute_step step st)) = memory st
       \<and> (memory (snd (compute_stabilization_step st)) = memory st \<or>
          (\<exists>h stored. memory st h = Some stored \<and>
             memory (snd (compute_stabilization_step st)) =
               (memory st)(h \<mapsto> sort_key (depth_of (statechart st)) stored)))
       \<and> dom (memory (snd (compute_stabilization_step st))) = dom (memory st)
       \<and> (\<forall>h. map_option mset (memory (snd (compute_stabilization_step st)) h) =
               map_option mset (memory st h))
       \<and> memory (send e internal st) = memory st"
proof -
  let ?st' = "snd (compute_stabilization_step st)"
  have c: "?st' = st \<or>
     (\<exists>h stored. memory st h = Some stored \<and>
        ?st' = st\<lparr>memory := (memory st)(h \<mapsto> sort_key (depth_of (statechart st)) stored)\<rparr>)"
    unfolding compute_stabilization_step_def by (rule stabilization_step_of_memory)
  from c have c1: "memory ?st' = memory st \<or>
          (\<exists>h stored. memory st h = Some stored \<and>
             memory ?st' = (memory st)(h \<mapsto> sort_key (depth_of (statechart st)) stored))"
  proof (elim disjE exE conjE)
    assume "?st' = st"
    then show ?thesis by simp
  next
    fix h stored
    assume m: "memory st h = Some stored"
      and e: "?st' = st\<lparr>memory := (memory st)(h \<mapsto> sort_key (depth_of (statechart st)) stored)\<rparr>"
    have "memory ?st' = (memory st)(h \<mapsto> sort_key (depth_of (statechart st)) stored)"
      using e by simp
    with m show ?thesis by blast
  qed
  have c2: "dom (memory ?st') = dom (memory st)"
    using c1 by (elim disjE exE conjE) (simp_all add: insert_absorb domI)
  have c3: "\<forall>h. map_option mset (memory ?st' h) = map_option mset (memory st h)"
    using c1 by (elim disjE exE conjE) simp_all
  have s: "memory (send e internal st) = memory st" by (simp add: send_def)
  show ?thesis using execute_step_memory [OF assms] c1 c2 c3 s by blast
qed

text \<open>
  The step of \<open>start\<close> in the player exits the basic state \<open>off\<close> only; the history state
  is then the leaf.
\<close>

theorem memory_frame_witness:
  "list_all (\<lambda>n. case states (statechart player_drained) n of None \<Rightarrow> True
                | Some s \<Rightarrow> \<not> owns_history (statechart player_drained) s)
      (exited_states start_step)
   \<and> exited_states start_step = [''off'']
   \<and> memory (snd (execute_step start_step player_drained)) = memory player_drained
   \<and> dom (memory (snd (compute_stabilization_step player_at_history))) =
       dom (memory player_at_history)"
proof -
  have a: "list_all (\<lambda>n. case states (statechart player_drained) n of None \<Rightarrow> True
                | Some s \<Rightarrow> \<not> owns_history (statechart player_drained) s)
      (exited_states start_step)" by code_simp
  have b: "exited_states start_step = [''off'']" by code_simp
  from a have h: "\<forall>n \<in> set (exited_states start_step).
      \<forall>s. states (statechart player_drained) n = Some s \<longrightarrow>
             \<not> owns_history (statechart player_drained) s"
    by (auto simp: list_all_iff)
  have "list_all (\<lambda>n. case states (statechart player_at_history) n of None \<Rightarrow> True
                | Some s \<Rightarrow> \<not> owns_history (statechart player_at_history) s)
      (exited_states start_step)" by code_simp
  then have h': "\<forall>n \<in> set (exited_states start_step).
      \<forall>s. states (statechart player_at_history) n = Some s \<longrightarrow>
             \<not> owns_history (statechart player_at_history) s"
    by (auto simp: list_all_iff)
  from memory_frame [OF h] memory_frame [OF h'] a b show ?thesis by simp
qed

text \<open>
  Claim C9 as stated fails there: leaving \<open>on\<close> stored \<open>a\<close> before its parent \<open>m\<close>, and
  computing the stabilization step through \<open>h\<close>, which applies no step at all, turns the
  stored list around.
\<close>

theorem stored_list_reordered_counterexample:
  "configuration player_at_history = {''root'', ''on'', ''h''}
   \<and> memory player_at_history ''h'' = Some [''a'', ''m'']
   \<and> fst (compute_stabilization_step player_at_history) =
       Inr (Some \<lparr>step_event = None, step_transition = None,
                  entered_states = [''m'', ''a''], exited_states = [''h'']\<rparr>)
   \<and> memory (snd (compute_stabilization_step player_at_history)) ''h'' = Some [''m'', ''a'']"
  by code_simp

subsection \<open>The lists of a computed step\<close>







subsection \<open>Consistency of the configuration\<close>

text \<open>
  Claim C1 at a failing input. The started chart of the nested orthogonal states has a
  consistent configuration. The event \<open>e\<close> selects the transition of \<open>a\<close> and, through the
  leaf \<open>c\<close>, the transition of \<open>s1\<close>, an ancestor of \<open>a\<close>; both pass the checks. The steps
  of both are computed before either is applied, so the step of \<open>s1\<close> exits \<open>a\<close>, which
  is no longer active, and not \<open>b\<close>, which the first step has entered. After the macro
  step \<open>b\<close> is active and its parent \<open>r1\<close> is not.
\<close>

theorem nested_sources_break_consistency:
  "observe (state_after (start nested_new) nested_new) [] = observe nested_started []
   \<and> list_all (\<lambda>n. list_all (\<lambda>a. a \<in> configuration nested_started) (ancestors_for nested n))
        (sorted_list_of_set (configuration nested_started))
   \<and> (case execute_once (send (Event ''e'') False nested_started) of
        Some (Inr (Some m), st) \<Rightarrow>
          map (\<lambda>s. map_option from_state (step_transition s)) (steps m) = [Some ''a'', Some ''s1'']
          \<and> configuration st = {''P'', ''s1'', ''b''}
          \<and> ''r1'' \<in> set (ancestors_for (statechart st) ''b'')
          \<and> ''r1'' \<notin> configuration st
      | _ \<Rightarrow> False)"
  by code_simp


end
